theory Spec2Isabelle
  imports Main "HOL-Library.Word"
begin

unbundle bit_operations_syntax

section \<open>Constants of the communication layer\<close>

text \<open>
  The model follows \<^verbatim>\<open>wolfhsm/wh_comm.h\<close>: the packet-size constants, the magic
  macros, the inline translation functions and the types of the header and of the
  two session contexts.
\<close>

text \<open>
  The anonymous enum of packet sizes.  Enumeration constants have type \<open>int\<close> in C.
\<close>

definition WOLFHSM_COMM_HEADER_LEN :: int where
  "WOLFHSM_COMM_HEADER_LEN = 8"

definition WOLFHSM_COMM_DATA_LEN :: int where
  "WOLFHSM_COMM_DATA_LEN = 1280"

definition WOLFHSM_COMM_MTU :: int where
  "WOLFHSM_COMM_MTU = WOLFHSM_COMM_HEADER_LEN + WOLFHSM_COMM_DATA_LEN"

text \<open>
  The magic macros.  Every constant carries the suffix \<open>u\<close>, so the macros are
  expressions of type \<open>unsigned int\<close>, modelled as 32-bit words.
\<close>

definition WH_COMM_VERSION :: "32 word" where
  "WH_COMM_VERSION = 0x01"

definition WH_COMM_ENDIAN :: "32 word" where
  "WH_COMM_ENDIAN = 0xA5"

definition WH_COMM_MAGIC_ENDIAN_MASK :: "32 word" where
  "WH_COMM_MAGIC_ENDIAN_MASK = 0xFF00"

definition WH_COMM_MAGIC_VERSION_MASK :: "32 word" where
  "WH_COMM_MAGIC_VERSION_MASK = 0x00FF"

definition WH_COMM_MAGIC_NATIVE :: "32 word" where
  "WH_COMM_MAGIC_NATIVE = (push_bit 8 WH_COMM_ENDIAN) OR WH_COMM_VERSION"

definition WH_COMM_MAGIC_SWAP :: "32 word" where
  "WH_COMM_MAGIC_SWAP = WH_COMM_ENDIAN OR (push_bit 8 WH_COMM_VERSION)"

text \<open>
  \<open>WH_COMM_FLAGS_SWAPTEST(_magic)\<close>.  The macro argument meets the \<open>unsigned int\<close>
  mask under \<open>&\<close>, so a \<open>uint16_t\<close> argument is converted to \<open>unsigned int\<close>
  first; callers of the model pass the converted value.
\<close>

definition WH_COMM_FLAGS_SWAPTEST :: "32 word \<Rightarrow> bool" where
  "WH_COMM_FLAGS_SWAPTEST magic \<longleftrightarrow>
     (magic AND WH_COMM_MAGIC_ENDIAN_MASK) =
     (WH_COMM_MAGIC_NATIVE AND WH_COMM_MAGIC_ENDIAN_MASK)"

section \<open>The translation primitives\<close>

definition wh_Translate8 :: "16 word \<Rightarrow> 8 word \<Rightarrow> 8 word" where
  "wh_Translate8 magic val = val"

text \<open>
  In \<open>wh_Translate16\<close> the operand \<open>val\<close> is promoted to \<open>int\<close> (32 bits) before the
  shifts; the result of the conditional is converted back to \<open>uint16_t\<close> on return.
  Both shifted values stay below \<open>2^24\<close>, so the promoted arithmetic is that of a
  32-bit word.
\<close>

definition wh_Translate16 :: "16 word \<Rightarrow> 16 word \<Rightarrow> 16 word" where
  "wh_Translate16 magic val =
     ucast (if WH_COMM_FLAGS_SWAPTEST (ucast magic) then (ucast val :: 32 word)
            else (drop_bit 8 (ucast val :: 32 word)) OR (push_bit 8 (ucast val :: 32 word)))"

definition wh_Translate32 :: "16 word \<Rightarrow> 32 word \<Rightarrow> 32 word" where
  "wh_Translate32 magic val =
     (if WH_COMM_FLAGS_SWAPTEST (ucast magic) then val
      else (drop_bit 24 (val AND 0xFF000000)) OR
           (drop_bit 8 (val AND 0xFF0000)) OR
           (drop_bit 8 (val AND 0xFF00)) OR
           (push_bit 24 (val AND 0xFF)))"

text \<open>
  The constants of \<open>wh_Translate32\<close> have type \<open>unsigned long\<close>.  Where that type has
  32 bits the function is \<open>wh_Translate32\<close> as above; where it has 64 bits, \<open>val\<close> is
  widened before the masks and shifts and the result is converted back on return.
  The two readings agree (\<open>wh_Translate32_ul64_eq\<close>).
\<close>

definition wh_Translate32_ul64 :: "16 word \<Rightarrow> 32 word \<Rightarrow> 32 word" where
  "wh_Translate32_ul64 magic val =
     ucast (if WH_COMM_FLAGS_SWAPTEST (ucast magic) then (ucast val :: 64 word)
            else (drop_bit 24 ((ucast val :: 64 word) AND 0xFF000000)) OR
                 (drop_bit 8 ((ucast val :: 64 word) AND 0xFF0000)) OR
                 (drop_bit 8 ((ucast val :: 64 word) AND 0xFF00)) OR
                 (push_bit 24 ((ucast val :: 64 word) AND 0xFF)))"

definition wh_Translate64 :: "16 word \<Rightarrow> 64 word \<Rightarrow> 64 word" where
  "wh_Translate64 magic val =
     (if WH_COMM_FLAGS_SWAPTEST (ucast magic) then val
      else (drop_bit 56 (val AND 0xFF00000000000000)) OR
           (drop_bit 40 (val AND 0xFF000000000000)) OR
           (drop_bit 24 (val AND 0xFF0000000000)) OR
           (drop_bit 8 (val AND 0xFF00000000)) OR
           (push_bit 8 (val AND 0xFF000000)) OR
           (push_bit 24 (val AND 0xFF0000)) OR
           (push_bit 40 (val AND 0xFF00)) OR
           (push_bit 56 (val AND 0xFF)))"

section \<open>Byte reversal, as the specification words it\<close>

text \<open>
  The specification's \<open>byteReverse\<close>: split the value into its bytes, reverse their
  order, and put them together again.  \<open>bytes_of\<close> lists the bytes of a word from the
  least significant one; \<open>word_of_bytes\<close> is its inverse.
\<close>

definition byte_at :: "'a::len word \<Rightarrow> nat \<Rightarrow> 8 word" where
  "byte_at v i = ucast (drop_bit (8 * i) v)"

definition bytes_of :: "'a::len word \<Rightarrow> 8 word list" where
  "bytes_of v = map (byte_at v) [0 ..< LENGTH('a) div 8]"

fun word_of_bytes :: "8 word list \<Rightarrow> 'a::len word" where
  "word_of_bytes [] = 0"
| "word_of_bytes (b # bs) = ucast b OR push_bit 8 (word_of_bytes bs)"

definition byteReverse :: "'a::len word \<Rightarrow> 'a word" where
  "byteReverse v = word_of_bytes (rev (bytes_of v))"

section \<open>The packet header and the session contexts\<close>

text \<open>
  \<open>whHeader\<close>, the on-the-wire header: four \<open>uint16_t\<close> members.
\<close>

record whHeader =
  magic :: "16 word"
  type :: "16 word"
  seq :: "16 word"
  aux :: "16 word"

text \<open>
  The member declarations of \<open>whHeader\<close> in declaration order, each with the width in
  bits of its type.  All members have the same type, hence the same alignment, so the
  structure has no padding and its size is the sum of the member sizes.
\<close>

definition whHeader_members :: "(string \<times> nat) list" where
  "whHeader_members =
     [(''magic'', LENGTH(16)), (''type'', LENGTH(16)), (''seq'', LENGTH(16)), (''aux'', LENGTH(16))]"

definition sizeof_whHeader :: int where
  "sizeof_whHeader = int (sum_list (map snd whHeader_members) div 8)"

text \<open>
  The packet buffer \<open>uint8_t packet[WOLFHSM_COMM_MTU]\<close> of a session is accessed through
  the members \<open>hdr\<close> (the header at the start of the buffer) and \<open>data\<close> (the payload
  behind it); the model keeps the buffer as these two views.
\<close>

record whPacket =
  hdr :: whHeader
  data :: "8 word list"

text \<open>
  \<open>whCommClient\<close> and \<open>whCommServer\<close>.  The transport binding (\<open>transport_context\<close>,
  \<open>transport_cb\<close>) belongs to \<open>wolfhsm/wh_transport.h\<close>; the operations below take the
  transport's behaviour as an argument instead.  Record fields share one name space,
  so the members carry the prefix \<open>c_\<close> (client) or \<open>s_\<close> (server).
\<close>

record whCommClient =
  c_reqid :: "16 word"
  c_seq :: "16 word"
  c_size :: "16 word"
  c_packet :: whPacket
  c_client_id :: "32 word"
  c_server_id :: "32 word"
  c_initialized :: int

record whCommServer =
  s_reqid :: "16 word"
  s_packet :: whPacket
  s_client_id :: "32 word"
  s_server_id :: "32 word"
  s_initialized :: int

section \<open>Session operations\<close>

text \<open>
  The header declares the session operations; their bodies are in \<open>wh_comm.c\<close>.  The
  error kinds are those of the specification: \<open>NotInitialized\<close>, \<open>SizeError\<close>, and a
  non-zero transport status handed up unchanged (the would-block code is one of them).
\<close>

datatype whError = NotInitialized | SizeError | TransportStatus int

text \<open>
  Modelled from the spec: the body of \<open>wh_CommClient_SendRequest\<close> (declared in
  \<open>wh_comm.h\<close>, defined in \<open>wh_comm.c\<close>).  It fails with \<open>NotInitialized\<close> when the
  session is not ready and with \<open>SizeError\<close> when the payload exceeds the payload
  capacity; otherwise it builds the header with the next sequence value and
  \<open>aux\<close> = client id, appends the data and asks the transport to send.  On transport
  status 0 it returns the sequence number used and the counter has advanced; any other
  status is handed up and the session is as before.  The header comment of the
  declaration agrees: the sequence number is updated on success.  \<open>Send\<close> is the
  transport's answer to the packet it is given.
\<close>

definition wh_CommClient_SendRequest ::
  "(whPacket \<Rightarrow> int) \<Rightarrow> whCommClient \<Rightarrow> 16 word \<Rightarrow> 16 word \<Rightarrow> 8 word list
     \<Rightarrow> (whError + 16 word) \<times> whCommClient" where
  "wh_CommClient_SendRequest Send ctx magic_arg type_arg data_arg =
     (if c_initialized ctx = 0 then (Inl NotInitialized, ctx)
      else if WOLFHSM_COMM_DATA_LEN < int (length data_arg) then (Inl SizeError, ctx)
      else
        let next_seq = c_seq ctx + 1;
            pkt = \<lparr>hdr = \<lparr>magic = magic_arg, type = type_arg, seq = next_seq,
                           aux = ucast (c_client_id ctx)\<rparr>,
                   data = data_arg\<rparr>;
            rc = Send pkt
        in if rc = 0
           then (Inr next_seq, ctx\<lparr>c_seq := next_seq, c_packet := pkt\<rparr>)
           else (Inl (TransportStatus rc), ctx))"

text \<open>
  One call of \<open>wh_CommClient_SendRequest\<close> with the transport behaviour it meets, and a
  run of such calls on one session, collecting what each call returned.
\<close>

record send_call =
  call_Send :: "whPacket \<Rightarrow> int"
  call_magic :: "16 word"
  call_type :: "16 word"
  call_data :: "8 word list"

fun send_requests ::
  "whCommClient \<Rightarrow> send_call list \<Rightarrow> (whError + 16 word) list \<times> whCommClient" where
  "send_requests ctx [] = ([], ctx)"
| "send_requests ctx (c # cs) =
     (case wh_CommClient_SendRequest (call_Send c) ctx (call_magic c) (call_type c) (call_data c) of
        (r, ctx') \<Rightarrow>
          (case send_requests ctx' cs of (rs, ctx'') \<Rightarrow> (r # rs, ctx'')))"

fun successes :: "(whError + 'a) list \<Rightarrow> 'a list" where
  "successes [] = []"
| "successes (Inl e # rs) = successes rs"
| "successes (Inr x # rs) = x # successes rs"

text \<open>
  Modelled from the spec: the body of \<open>wh_CommServer_RecvRequest\<close> (declared in
  \<open>wh_comm.h\<close>, defined in \<open>wh_comm.c\<close>).  \<open>Recv\<close> is what the transport answers to the
  poll: a status and, for status 0, the packet it delivers.  A non-zero status (no data
  included) is handed up and nothing is changed.  On receipt the header is decoded, the
  receiver translating the multi-byte fields per the received magic; the payload must
  fit the caller's buffer of \<open>capacity\<close> bytes, else \<open>SizeError\<close>.  The call returns
  magic, type, sequence, size and payload, and caches the decoded sequence in the
  session (member \<open>reqid\<close>) for \<open>wh_CommServer_SendResponse\<close>.
\<close>

definition wh_CommServer_RecvRequest ::
  "int \<times> whPacket \<Rightarrow> whCommServer \<Rightarrow> nat
     \<Rightarrow> (whError + 16 word \<times> 16 word \<times> 16 word \<times> 16 word \<times> 8 word list) \<times> whCommServer" where
  "wh_CommServer_RecvRequest Recv ctx capacity =
     (if s_initialized ctx = 0 then (Inl NotInitialized, ctx)
      else
        let rc = fst Recv; pkt = snd Recv
        in if rc \<noteq> 0 then (Inl (TransportStatus rc), ctx)
           else if capacity < length (data pkt) then (Inl SizeError, ctx)
           else
             let m = magic (hdr pkt);
                 req_seq = wh_Translate16 m (seq (hdr pkt))
             in (Inr (m, wh_Translate16 m (type (hdr pkt)), req_seq,
                      word_of_nat (length (data pkt)), data pkt),
                 ctx\<lparr>s_packet := pkt, s_reqid := req_seq\<rparr>))"

text \<open>
  Modelled from the spec: the body of \<open>wh_CommServer_SendResponse\<close> (declared in
  \<open>wh_comm.h\<close>, defined in \<open>wh_comm.c\<close>).  It builds the response from the supplied
  magic, type and sequence, appends the payload and sends it through the transport,
  with the size and error rules of the client's send.  The specification does not say
  where the response's \<open>aux\<close> (a status indicator) comes from, so the model takes it as
  an argument.  A successful call returns the packet that was handed to the transport.
\<close>

definition wh_CommServer_SendResponse ::
  "(whPacket \<Rightarrow> int) \<Rightarrow> whCommServer \<Rightarrow> 16 word \<Rightarrow> 16 word \<Rightarrow> 16 word \<Rightarrow> 16 word
     \<Rightarrow> 8 word list \<Rightarrow> (whError + whPacket) \<times> whCommServer" where
  "wh_CommServer_SendResponse Send ctx magic_arg type_arg seq_arg aux_arg data_arg =
     (if s_initialized ctx = 0 then (Inl NotInitialized, ctx)
      else if WOLFHSM_COMM_DATA_LEN < int (length data_arg) then (Inl SizeError, ctx)
      else
        let pkt = \<lparr>hdr = \<lparr>magic = magic_arg, type = type_arg, seq = seq_arg, aux = aux_arg\<rparr>,
                   data = data_arg\<rparr>;
            rc = Send pkt
        in if rc = 0 then (Inr pkt, ctx\<lparr>s_packet := pkt\<rparr>)
           else (Inl (TransportStatus rc), ctx))"

text \<open>
  Answering with the default sequence: the caller passes the sequence cached by the last
  \<open>wh_CommServer_RecvRequest\<close>.
\<close>

definition SendResponse_default ::
  "(whPacket \<Rightarrow> int) \<Rightarrow> whCommServer \<Rightarrow> 16 word \<Rightarrow> 16 word \<Rightarrow> 16 word
     \<Rightarrow> 8 word list \<Rightarrow> (whError + whPacket) \<times> whCommServer" where
  "SendResponse_default Send ctx magic_arg type_arg aux_arg data_arg =
     wh_CommServer_SendResponse Send ctx magic_arg type_arg (s_reqid ctx) aux_arg data_arg"

section \<open>Example sessions\<close>

text \<open>
  A ready client whose counter is two steps before the wrap-around, and five calls on
  it: a send that succeeds, one the transport refuses with status 5, one whose payload
  is a byte too long, one with a payload of exactly the capacity, and an empty one.
\<close>

definition example_client :: whCommClient where
  "example_client =
     \<lparr>c_reqid = 0, c_seq = 0xFFFE, c_size = 0,
      c_packet = \<lparr>hdr = \<lparr>magic = 0, type = 0, seq = 0, aux = 0\<rparr>, data = []\<rparr>,
      c_client_id = 7, c_server_id = 0, c_initialized = 1\<rparr>"

definition example_calls :: "send_call list" where
  "example_calls =
     [\<lparr>call_Send = (\<lambda>_. 0), call_magic = 0xA501, call_type = 1, call_data = [1, 2]\<rparr>,
      \<lparr>call_Send = (\<lambda>_. 5), call_magic = 0xA501, call_type = 1, call_data = [1, 2]\<rparr>,
      \<lparr>call_Send = (\<lambda>_. 0), call_magic = 0xA501, call_type = 1, call_data = replicate 1281 0\<rparr>,
      \<lparr>call_Send = (\<lambda>_. 0), call_magic = 0xA501, call_type = 1, call_data = replicate 1280 0\<rparr>,
      \<lparr>call_Send = (\<lambda>_. 0), call_magic = 0xA501, call_type = 3, call_data = []\<rparr>]"

text \<open>
  A ready server, and a request as a host of the other byte order sends it: the
  receiver reads the magic as \<open>0x01A5\<close>, type 1 as \<open>0x0100\<close> and sequence 7 as
  \<open>0x0700\<close>.
\<close>

definition example_server :: whCommServer where
  "example_server =
     \<lparr>s_reqid = 0,
      s_packet = \<lparr>hdr = \<lparr>magic = 0, type = 0, seq = 0, aux = 0\<rparr>, data = []\<rparr>,
      s_client_id = 0, s_server_id = 1, s_initialized = 1\<rparr>"

definition example_request :: whPacket where
  "example_request =
     \<lparr>hdr = \<lparr>magic = 0x01A5, type = 0x0100, seq = 0x0700, aux = 0x0700\<rparr>, data = [1, 2]\<rparr>"

section \<open>Facts about the constants and the swap test\<close>

lemmas magic_defs =
  WH_COMM_FLAGS_SWAPTEST_def WH_COMM_MAGIC_NATIVE_def WH_COMM_MAGIC_SWAP_def
  WH_COMM_ENDIAN_def WH_COMM_VERSION_def WH_COMM_MAGIC_ENDIAN_MASK_def

lemma MAGIC_NATIVE_value: "WH_COMM_MAGIC_NATIVE = 0xA501"
  by (simp add: magic_defs)

lemma MAGIC_SWAP_value: "WH_COMM_MAGIC_SWAP = 0x01A5"
  by (simp add: magic_defs)

lemma SWAPTEST_iff: "WH_COMM_FLAGS_SWAPTEST m \<longleftrightarrow> m AND 0xFF00 = 0xA500"
  by (simp add: magic_defs)

lemma SWAPTEST_native:
  "WH_COMM_FLAGS_SWAPTEST (ucast (ucast WH_COMM_MAGIC_NATIVE :: 16 word))"
  by (simp add: SWAPTEST_iff MAGIC_NATIVE_value)

lemma SWAPTEST_swap:
  "\<not> WH_COMM_FLAGS_SWAPTEST (ucast (ucast WH_COMM_MAGIC_SWAP :: 16 word))"
  by (simp add: SWAPTEST_iff MAGIC_SWAP_value)

lemma ucast_32_16_id: "(ucast (ucast (a :: 16 word) :: 32 word) :: 16 word) = a"
  by (rule bit_word_eqI) (simp add: bit_simps)

lemma ucast_16_32_eq_iff: "(ucast (a :: 16 word) :: 32 word) = ucast b \<longleftrightarrow> a = b"
proof
  assume "(ucast a :: 32 word) = ucast b"
  then have "(ucast (ucast a :: 32 word) :: 16 word) = ucast (ucast b :: 32 word)"
    by simp
  then show "a = b"
    by (simp add: ucast_32_16_id)
qed simp

text \<open>The test, seen from the \<open>uint16_t\<close> argument of the translation functions.\<close>

lemma SWAPTEST_ucast_iff:
  "WH_COMM_FLAGS_SWAPTEST (ucast (m :: 16 word)) \<longleftrightarrow> m AND 0xFF00 = 0xA500"
proof -
  have "(ucast m :: 32 word) AND 0xFF00 = ucast (m AND 0xFF00)"
    by (simp add: unsigned_and_eq)
  moreover have "(0xA500 :: 32 word) = ucast (0xA500 :: 16 word)"
    by simp
  ultimately show ?thesis
    by (simp only: SWAPTEST_iff ucast_16_32_eq_iff)
qed

lemma MAGIC_NATIVE_16: "(ucast WH_COMM_MAGIC_NATIVE :: 16 word) = 0xA501"
  by (simp add: MAGIC_NATIVE_value)

lemma MAGIC_SWAP_16: "(ucast WH_COMM_MAGIC_SWAP :: 16 word) = 0x01A5"
  by (simp add: MAGIC_SWAP_value)

section \<open>Facts about bytes\<close>

lemma bit_byte_at: "bit (byte_at v i) n \<longleftrightarrow> n < 8 \<and> bit v (8 * i + n)"
  by (auto simp add: byte_at_def bit_simps)

lemma bit_byte_bound: "bit (b :: 8 word) n \<Longrightarrow> n < 8"
  by (drule bit_imp_le_length) simp

lemma byte_at_cons_0:
  "8 \<le> LENGTH('a) \<Longrightarrow> byte_at (ucast b OR push_bit 8 w :: 'a::len word) 0 = b"
  by (rule bit_word_eqI) (auto simp add: bit_byte_at bit_simps)

lemma byte_at_cons_Suc:
  "8 * Suc i + 8 \<le> LENGTH('a) \<Longrightarrow>
   byte_at (ucast (b :: 8 word) OR push_bit 8 w :: 'a::len word) (Suc i) = byte_at w i"
  by (rule bit_word_eqI) (auto simp add: bit_byte_at bit_simps dest: bit_byte_bound)

lemma byte_at_word_of_bytes:
  "i < length bs \<Longrightarrow> 8 * length bs \<le> LENGTH('a) \<Longrightarrow>
   byte_at (word_of_bytes bs :: 'a::len word) i = bs ! i"
proof (induction bs arbitrary: i)
  case Nil
  then show ?case by simp
next
  case (Cons b bs)
  show ?case
  proof (cases i)
    case 0
    with Cons.prems show ?thesis
      by (simp add: byte_at_cons_0)
  next
    case (Suc j)
    with Cons.prems have "8 * Suc j + 8 \<le> LENGTH('a)" and "j < length bs"
      and "8 * length bs \<le> LENGTH('a)"
      by simp_all
    with Cons.IH [of j] Suc show ?thesis
      by (simp add: byte_at_cons_Suc)
  qed
qed

lemma length_bytes_of: "length (bytes_of (v :: 'a::len word)) = LENGTH('a) div 8"
  by (simp add: bytes_of_def)

lemma bytes_of_word_of_bytes:
  assumes "length bs = LENGTH('a) div 8"
  shows "bytes_of (word_of_bytes bs :: 'a::len word) = bs"
proof -
  have "8 * length bs \<le> LENGTH('a)"
    using assms by simp
  then have "map (byte_at (word_of_bytes bs :: 'a word)) [0 ..< length bs] =
             map ((!) bs) [0 ..< length bs]"
    by (intro map_cong refl) (simp add: byte_at_word_of_bytes)
  then show ?thesis
    by (simp add: bytes_of_def assms [symmetric] map_nth)
qed

text \<open>\<open>byteReverse\<close> does reverse the byte list of its argument.\<close>

lemma bytes_of_byteReverse: "bytes_of (byteReverse v) = rev (bytes_of v)"
  by (simp add: byteReverse_def bytes_of_word_of_bytes length_bytes_of)

lemma byte_split:
  "(ucast (ucast w :: 8 word) :: 'a::len word) OR push_bit 8 (drop_bit 8 w) = w"
proof (rule bit_word_eqI)
  fix n
  assume "n < LENGTH('a)"
  then show "bit (ucast (ucast w :: 8 word) OR push_bit 8 (drop_bit 8 w)) n \<longleftrightarrow> bit w n"
    by (cases "n < 8") (auto simp add: bit_simps)
qed

lemma word_of_bytes_from:
  "i \<le> n \<Longrightarrow> LENGTH('a) \<le> 8 * n \<Longrightarrow>
   word_of_bytes (map (byte_at v) [i ..< n]) = drop_bit (8 * i) (v :: 'a::len word)"
proof (induction rule: inc_induct)
  case base
  then show ?case
    by (simp add: drop_bit_word_beyond)
next
  case (step k)
  have "ucast (byte_at v k) OR push_bit 8 (drop_bit (8 * Suc k) v) = drop_bit (8 * k) v"
    using byte_split [of "drop_bit (8 * k) v"]
    by (simp add: byte_at_def drop_bit_drop_bit add.commute)
  with step show ?case
    by (simp add: upt_conv_Cons)
qed

lemma word_of_bytes_of:
  "8 dvd LENGTH('a) \<Longrightarrow> word_of_bytes (bytes_of v) = (v :: 'a::len word)"
  using word_of_bytes_from [of 0 "LENGTH('a) div 8" v]
  by (simp add: bytes_of_def)

lemma byteReverse_involution:
  "8 dvd LENGTH('a) \<Longrightarrow> byteReverse (byteReverse v) = (v :: 'a::len word)"
  using bytes_of_byteReverse [of v]
  by (simp add: byteReverse_def [of "byteReverse v"] word_of_bytes_of)

section \<open>The swap branches of widths 16 and 64\<close>

lemma swap16_byteReverse:
  "ucast (drop_bit 8 (ucast v :: 32 word) OR push_bit 8 (ucast v :: 32 word)) =
   byteReverse (v :: 16 word)"
  apply (simp add: byteReverse_def bytes_of_def byte_at_def upt_rec)
  apply (rule bit_word_eqI)
  apply (auto simp add: bit_simps dest: bit_imp_le_length)
  done

lemma masks64:
  "(0xFF :: 64 word) = mask 8"
  "(0xFF00 :: 64 word) = push_bit 8 (mask 8)"
  "(0xFF0000 :: 64 word) = push_bit 16 (mask 8)"
  "(0xFF000000 :: 64 word) = push_bit 24 (mask 8)"
  "(0xFF00000000 :: 64 word) = push_bit 32 (mask 8)"
  "(0xFF0000000000 :: 64 word) = push_bit 40 (mask 8)"
  "(0xFF000000000000 :: 64 word) = push_bit 48 (mask 8)"
  "(0xFF00000000000000 :: 64 word) = push_bit 56 (mask 8)"
  by (simp_all add: mask_eq_exp_minus_1 push_bit_eq_mult)

lemma byteReverse64_unfold:
  "byteReverse (v :: 64 word) =
     ucast (byte_at v 7) OR push_bit 8 (ucast (byte_at v 6)) OR
     push_bit 16 (ucast (byte_at v 5)) OR push_bit 24 (ucast (byte_at v 4)) OR
     push_bit 32 (ucast (byte_at v 3)) OR push_bit 40 (ucast (byte_at v 2)) OR
     push_bit 48 (ucast (byte_at v 1)) OR push_bit 56 (ucast (byte_at v 0))"
proof -
  have "[0 ..< 8 :: nat] = [0, 1, 2, 3, 4, 5, 6, 7]"
    by code_simp
  then show ?thesis
    by (simp add: byteReverse_def bytes_of_def push_bit_or)
qed

text \<open>Each term of the 64-bit swap expression moves one byte to its mirror place.\<close>

lemma swap64_terms:
  "drop_bit 56 ((v :: 64 word) AND push_bit 56 (mask 8)) = ucast (byte_at v 7)"
  "drop_bit 40 (v AND push_bit 48 (mask 8)) = push_bit 8 (ucast (byte_at v 6))"
  "drop_bit 24 (v AND push_bit 40 (mask 8)) = push_bit 16 (ucast (byte_at v 5))"
  "drop_bit 8 (v AND push_bit 32 (mask 8)) = push_bit 24 (ucast (byte_at v 4))"
  "push_bit 8 (v AND push_bit 24 (mask 8)) = push_bit 32 (ucast (byte_at v 3))"
  "push_bit 24 (v AND push_bit 16 (mask 8)) = push_bit 40 (ucast (byte_at v 2))"
  "push_bit 40 (v AND push_bit 8 (mask 8)) = push_bit 48 (ucast (byte_at v 1))"
  "push_bit 56 (v AND mask 8) = push_bit 56 (ucast (byte_at v 0))"
  unfolding byte_at_def
  by (rule bit_word_eqI; auto simp add: bit_simps)+

lemma swap64_byteReverse:
  "(drop_bit 56 (val AND 0xFF00000000000000)) OR
   (drop_bit 40 (val AND 0xFF000000000000)) OR
   (drop_bit 24 (val AND 0xFF0000000000)) OR
   (drop_bit 8 (val AND 0xFF00000000)) OR
   (push_bit 8 (val AND 0xFF000000)) OR
   (push_bit 24 (val AND 0xFF0000)) OR
   (push_bit 40 (val AND 0xFF00)) OR
   (push_bit 56 (val AND 0xFF)) = byteReverse (val :: 64 word)"
  by (simp only: masks64 swap64_terms byteReverse64_unfold)

lemma wh_Translate16_cases:
  "wh_Translate16 m v = (if m AND 0xFF00 = 0xA500 then v else byteReverse v)"
  by (simp add: wh_Translate16_def SWAPTEST_ucast_iff ucast_32_16_id swap16_byteReverse)

lemma wh_Translate64_cases:
  "wh_Translate64 m v = (if m AND 0xFF00 = 0xA500 then v else byteReverse v)"
  by (simp only: wh_Translate64_def SWAPTEST_ucast_iff swap64_byteReverse)

text \<open>
  A magic that fails the swap test is treated as the swapped magic is, whatever its
  other bits: no width rejects it or passes the value through.
\<close>

lemma non_native_magic_as_swap:
  assumes "m AND 0xFF00 \<noteq> 0xA500"
  shows "wh_Translate16 m a = wh_Translate16 (ucast WH_COMM_MAGIC_SWAP) a"
    and "wh_Translate32 m b = wh_Translate32 (ucast WH_COMM_MAGIC_SWAP) b"
    and "wh_Translate64 m c = wh_Translate64 (ucast WH_COMM_MAGIC_SWAP) c"
proof -
  from assms have m: "\<not> WH_COMM_FLAGS_SWAPTEST (ucast m)"
    by (simp only: SWAPTEST_ucast_iff not_False_eq_True)
  show "wh_Translate16 m a = wh_Translate16 (ucast WH_COMM_MAGIC_SWAP) a"
    by (simp only: wh_Translate16_def m SWAPTEST_swap if_False)
  show "wh_Translate32 m b = wh_Translate32 (ucast WH_COMM_MAGIC_SWAP) b"
    by (simp only: wh_Translate32_def m SWAPTEST_swap if_False)
  show "wh_Translate64 m c = wh_Translate64 (ucast WH_COMM_MAGIC_SWAP) c"
    by (simp only: wh_Translate64_def m SWAPTEST_swap if_False)
qed

section \<open>The swap branch of width 32\<close>

lemma masks32:
  "(0xFF :: 32 word) = mask 8"
  "(0xFF00 :: 32 word) = push_bit 8 (mask 8)"
  "(0xFF0000 :: 32 word) = push_bit 16 (mask 8)"
  "(0xFF000000 :: 32 word) = push_bit 24 (mask 8)"
  by (simp_all add: mask_eq_exp_minus_1 push_bit_eq_mult)

text \<open>
  Where each term of the 32-bit swap expression puts its byte: the third one puts
  byte 1 on byte 0, where the first one has already put byte 3.
\<close>

lemma swap32_terms:
  "drop_bit 24 ((v :: 32 word) AND push_bit 24 (mask 8)) = ucast (byte_at v 3)"
  "drop_bit 8 (v AND push_bit 16 (mask 8)) = push_bit 8 (ucast (byte_at v 2))"
  "drop_bit 8 (v AND push_bit 8 (mask 8)) = ucast (byte_at v 1)"
  "push_bit 24 (v AND mask 8) = push_bit 24 (ucast (byte_at v 0))"
  unfolding byte_at_def
  by (rule bit_word_eqI; auto simp add: bit_simps)+

lemma swap32_wide_terms:
  "drop_bit 24 ((ucast (v :: 32 word) :: 64 word) AND push_bit 24 (mask 8)) =
   ucast (byte_at v 3)"
  "drop_bit 8 ((ucast v :: 64 word) AND push_bit 16 (mask 8)) = push_bit 8 (ucast (byte_at v 2))"
  "drop_bit 8 ((ucast v :: 64 word) AND push_bit 8 (mask 8)) = ucast (byte_at v 1)"
  "push_bit 24 ((ucast v :: 64 word) AND mask 8) = push_bit 24 (ucast (byte_at v 0))"
  unfolding byte_at_def
  by (rule bit_word_eqI; auto simp add: bit_simps)+

lemma byteReverse32_unfold:
  "byteReverse (v :: 32 word) =
     ucast (byte_at v 3) OR push_bit 8 (ucast (byte_at v 2)) OR
     push_bit 16 (ucast (byte_at v 1)) OR push_bit 24 (ucast (byte_at v 0))"
proof -
  have "[0 ..< 4 :: nat] = [0, 1, 2, 3]"
    by code_simp
  then show ?thesis
    by (simp add: byteReverse_def bytes_of_def push_bit_or)
qed

lemma swap32_expr:
  "(drop_bit 24 (val AND 0xFF000000)) OR (drop_bit 8 (val AND 0xFF0000)) OR
   (drop_bit 8 (val AND 0xFF00)) OR (push_bit 24 (val AND 0xFF)) =
   ucast (byte_at val 3 OR byte_at val 1) OR push_bit 8 (ucast (byte_at val 2)) OR
   push_bit 24 (ucast (byte_at (val :: 32 word) 0))"
  apply (simp only: masks32 swap32_terms)
  apply (rule bit_word_eqI)
  apply (auto simp add: bit_simps)
  done

lemma wh_Translate32_swap_expr:
  "wh_Translate32 (ucast WH_COMM_MAGIC_SWAP) v =
     ucast (byte_at v 3 OR byte_at v 1) OR push_bit 8 (ucast (byte_at v 2)) OR
     push_bit 24 (ucast (byte_at v 0))"
  by (simp only: wh_Translate32_def SWAPTEST_swap if_False swap32_expr)

lemma byte_2_of_swap32: "byte_at (wh_Translate32 (ucast WH_COMM_MAGIC_SWAP) v) 2 = 0"
  unfolding wh_Translate32_swap_expr
  by (rule bit_word_eqI) (auto simp add: bit_byte_at bit_simps dest: bit_byte_bound)

lemma byte_2_of_byteReverse32: "byte_at (byteReverse (v :: 32 word)) 2 = byte_at v 1"
proof -
  have "[0 ..< 4 :: nat] = [0, 1, 2, 3]"
    by code_simp
  with bytes_of_byteReverse [of v] show ?thesis
    by (simp add: bytes_of_def)
qed

text \<open>
  The 32-bit swap branch is the byte reversal exactly on the values whose byte 1 is zero.
\<close>

lemma wh_Translate32_swap_correct_iff:
  "wh_Translate32 (ucast WH_COMM_MAGIC_SWAP) v = byteReverse v \<longleftrightarrow> byte_at v 1 = 0"
proof
  assume "wh_Translate32 (ucast WH_COMM_MAGIC_SWAP) v = byteReverse v"
  then have "byte_at (wh_Translate32 (ucast WH_COMM_MAGIC_SWAP) v) 2 = byte_at (byteReverse v) 2"
    by simp
  then show "byte_at v 1 = 0"
    by (simp only: byte_2_of_swap32 byte_2_of_byteReverse32)
next
  assume "byte_at v 1 = 0"
  then show "wh_Translate32 (ucast WH_COMM_MAGIC_SWAP) v = byteReverse v"
    by (simp add: wh_Translate32_swap_expr byteReverse32_unfold)
qed

text \<open>The width of \<open>unsigned long\<close> makes no difference to \<open>wh_Translate32\<close>.\<close>

lemma wh_Translate32_ul64_eq: "wh_Translate32_ul64 m v = wh_Translate32 m v"
proof (cases "WH_COMM_FLAGS_SWAPTEST (ucast m)")
  case True
  have "(ucast (ucast v :: 64 word) :: 32 word) = v"
    by (rule bit_word_eqI) (simp add: bit_simps)
  with True show ?thesis
    by (simp add: wh_Translate32_ul64_def wh_Translate32_def)
next
  case False
  have m64: "(0xFF :: 64 word) = mask 8" "(0xFF00 :: 64 word) = push_bit 8 (mask 8)"
    "(0xFF0000 :: 64 word) = push_bit 16 (mask 8)"
    "(0xFF000000 :: 64 word) = push_bit 24 (mask 8)"
    by (simp_all add: mask_eq_exp_minus_1 push_bit_eq_mult)
  have "(ucast (ucast (byte_at v 3) OR push_bit 8 (ucast (byte_at v 2)) OR
           ucast (byte_at v 1) OR push_bit 24 (ucast (byte_at v 0)) :: 64 word) :: 32 word) =
        ucast (byte_at v 3) OR push_bit 8 (ucast (byte_at v 2)) OR ucast (byte_at v 1) OR
           push_bit 24 (ucast (byte_at v 0))"
    by (rule bit_word_eqI) (auto simp add: bit_simps dest: bit_byte_bound)
  with False show ?thesis
    by (simp only: wh_Translate32_ul64_def wh_Translate32_def if_False m64 masks32
        swap32_terms swap32_wide_terms)
qed

section \<open>Facts about the session operations\<close>

text \<open>A call either fails and leaves the session as it was, or takes the next sequence.\<close>

lemma SendRequest_step:
  assumes "wh_CommClient_SendRequest Send ctx m t d = (r, ctx')"
  shows "(case r of Inl e \<Rightarrow> ctx' = ctx
          | Inr s \<Rightarrow> s = c_seq ctx + 1 \<and> c_seq ctx' = c_seq ctx + 1)"
  using assms
  by (auto simp add: wh_CommClient_SendRequest_def Let_def split: if_splits)

text \<open>A ready session, a payload that fits and a transport that accepts: the call succeeds.\<close>

lemma SendRequest_succeeds:
  assumes "c_initialized ctx \<noteq> 0" and "int (length d) \<le> WOLFHSM_COMM_DATA_LEN"
    and "\<And>pkt. Send pkt = 0"
  shows "fst (wh_CommClient_SendRequest Send ctx m t d) = Inr (c_seq ctx + 1)"
  using assms
  by (simp add: wh_CommClient_SendRequest_def Let_def)

lemma send_requests_seq:
  assumes "send_requests ctx calls = (rs, ctx')"
  shows "(\<forall>k < length (successes rs). successes rs ! k = c_seq ctx + word_of_nat (Suc k))
         \<and> c_seq ctx' = c_seq ctx + word_of_nat (length (successes rs))"
  using assms
proof (induction calls arbitrary: ctx rs)
  case Nil
  then show ?case by simp
next
  case (Cons c cs)
  obtain r c1 where step:
    "wh_CommClient_SendRequest (call_Send c) ctx (call_magic c) (call_type c) (call_data c) = (r, c1)"
    by (cases "wh_CommClient_SendRequest (call_Send c) ctx (call_magic c) (call_type c) (call_data c)")
  obtain rs1 c2 where rest: "send_requests c1 cs = (rs1, c2)"
    by (cases "send_requests c1 cs")
  from Cons.prems step rest have rs: "rs = r # rs1" and c2: "c2 = ctx'"
    by simp_all
  note IH = Cons.IH [OF rest [unfolded c2]]
  show ?case
  proof (cases r)
    case (Inl e)
    with SendRequest_step [OF step] have "c1 = ctx" by simp
    with IH Inl rs show ?thesis by simp
  next
    case (Inr s)
    with SendRequest_step [OF step]
    have s: "s = c_seq ctx + 1" and c1: "c_seq c1 = c_seq ctx + 1"
      by simp_all
    have "successes rs ! k = c_seq ctx + word_of_nat (Suc k)"
      if "k < length (successes rs)" for k
    proof (cases k)
      case 0
      with Inr rs s show ?thesis by simp
    next
      case (Suc j)
      with that Inr rs have "j < length (successes rs1)" by simp
      with IH have "successes rs1 ! j = c_seq c1 + word_of_nat (Suc j)" by simp
      with Suc Inr rs c1 show ?thesis by simp
    qed
    moreover from IH Inr rs c1
    have "c_seq ctx' = c_seq ctx + word_of_nat (length (successes rs))"
      by simp
    ultimately show ?thesis by simp
  qed
qed

lemma unat_seq_add: "unat ((s :: 16 word) + word_of_nat k) = (unat s + k) mod 2 ^ 16"
  by (simp add: unat_word_ariths unat_of_nat mod_add_right_eq)

lemma example_run:
  "fst (send_requests example_client example_calls) =
     [Inr 0xFFFF, Inl (TransportStatus 5), Inl SizeError, Inr 0, Inr 1]"
  by (simp add: example_client_def example_calls_def wh_CommClient_SendRequest_def
      WOLFHSM_COMM_DATA_LEN_def Let_def)

lemma RecvRequest_caches:
  assumes "wh_CommServer_RecvRequest Recv ctx capacity = (Inr (m, t, S, n, d), ctx')"
  shows "s_reqid ctx' = S \<and> s_initialized ctx' \<noteq> 0
         \<and> S = wh_Translate16 (magic (hdr (snd Recv))) (seq (hdr (snd Recv)))"
  using assms
  by (auto simp add: wh_CommServer_RecvRequest_def Let_def split: if_splits)

lemma SendResponse_packet:
  assumes "wh_CommServer_SendResponse Send ctx m t s a d = (Inr pkt, ctx')"
  shows "pkt = \<lparr>hdr = \<lparr>magic = m, type = t, seq = s, aux = a\<rparr>, data = d\<rparr>"
  using assms
  by (auto simp add: wh_CommServer_SendResponse_def Let_def split: if_splits)

text \<open>
  After a request was received, the default response goes out whenever its payload
  fits and the transport accepts it.
\<close>

lemma SendResponse_default_succeeds:
  assumes "wh_CommServer_RecvRequest Recv ctx capacity = (Inr (m, t, S, n, d), ctx')"
    and "int (length data_arg) \<le> WOLFHSM_COMM_DATA_LEN"
    and "Send \<lparr>hdr = \<lparr>magic = magic_arg, type = type_arg, seq = S, aux = aux_arg\<rparr>,
               data = data_arg\<rparr> = 0"
  shows "\<exists>pkt ctx''.
           SendResponse_default Send ctx' magic_arg type_arg aux_arg data_arg = (Inr pkt, ctx'')"
  using RecvRequest_caches [OF assms(1)] assms(2,3)
  by (simp add: SendResponse_default_def wh_CommServer_SendResponse_def Let_def)

lemma example_recv:
  "wh_CommServer_RecvRequest (0, example_request) example_server 16 =
     (Inr (0x01A5, 1, 7, 2, [1, 2]),
      example_server\<lparr>s_packet := example_request, s_reqid := 7\<rparr>)"
  by (simp add: wh_CommServer_RecvRequest_def example_request_def example_server_def
      wh_Translate16_cases Let_def byteReverse_def bytes_of_def byte_at_def upt_rec)

section \<open>Properties of the specification\<close>

text \<open>
  C1.  Required: for every 32-bit value \<open>v\<close>, \<open>wh_Translate32\<close> with the swapped magic
  returns the full byte reversal of \<open>v\<close>.  The code does not: the third term of its swap
  expression shifts byte 1 to the right instead of to the left, so byte 1 of the
  argument lands on byte 0 of the result and byte 2 of the result is always zero.  At
  \<open>0x11223344\<close> the code returns \<open>0x44002233\<close>; the byte reversal is \<open>0x44332211\<close>.
  The two agree exactly on the values whose byte 1 is zero
  (\<open>wh_Translate32_swap_correct_iff\<close>).
\<close>

theorem wh_Translate32_swap_at_11223344:
  "wh_Translate32 (ucast WH_COMM_MAGIC_SWAP) 0x11223344 = 0x44002233
   \<and> byteReverse (0x11223344 :: 32 word) = 0x44332211"
proof
  show "wh_Translate32 (ucast WH_COMM_MAGIC_SWAP) 0x11223344 = 0x44002233"
    by (simp add: wh_Translate32_def SWAPTEST_swap)
  show "byteReverse (0x11223344 :: 32 word) = 0x44332211"
    by (simp add: byteReverse_def bytes_of_def byte_at_def upt_rec)
qed

text \<open>
  C2.  For every 16-bit value, \<open>wh_Translate16\<close> with the swapped magic returns its
  byte reversal, and for every 64-bit value \<open>wh_Translate64\<close> with the swapped magic
  returns its byte reversal.
\<close>

theorem wh_Translate16_64_swap_byteReverse:
  "wh_Translate16 (ucast WH_COMM_MAGIC_SWAP) v = byteReverse v
   \<and> wh_Translate64 (ucast WH_COMM_MAGIC_SWAP) w = byteReverse w"
  by (simp add: wh_Translate16_cases wh_Translate64_cases MAGIC_SWAP_16)

text \<open>
  C3.  With the native magic the translations of width 16, 32 and 64 return the value
  unchanged, and \<open>wh_Translate8\<close> returns the value unchanged for every magic.
\<close>

theorem wh_Translate_native_identity:
  "wh_Translate16 (ucast WH_COMM_MAGIC_NATIVE) v16 = v16
   \<and> wh_Translate32 (ucast WH_COMM_MAGIC_NATIVE) v32 = v32
   \<and> wh_Translate64 (ucast WH_COMM_MAGIC_NATIVE) v64 = v64
   \<and> wh_Translate8 m v8 = v8"
  by (simp add: wh_Translate16_def wh_Translate32_def wh_Translate64_def wh_Translate8_def
      SWAPTEST_native ucast_32_16_id)

text \<open>
  C4.  Required: for every magic whose high byte is not \<open>0xA5\<close>, also one that is
  neither the native nor the swapped magic, the translations of width 16, 32 and 64
  take the swap branch, that is, they byte-reverse.  All three do take the swap branch
  (\<open>non_native_magic_as_swap\<close>), and for the widths 16 and 64 that branch is the byte
  reversal; the swap branch of \<open>wh_Translate32\<close> is not.  With the magic \<open>0x5A01\<close>,
  which is neither constant, \<open>wh_Translate32\<close> maps \<open>0xDEADBEEF\<close> to \<open>0xEF00ADFE\<close>,
  while the byte reversal is \<open>0xEFBEADDE\<close>.
\<close>

theorem wh_Translate32_corrupt_magic_at_DEADBEEF:
  "(0x5A01 :: 16 word) \<noteq> ucast WH_COMM_MAGIC_NATIVE
   \<and> (0x5A01 :: 16 word) \<noteq> ucast WH_COMM_MAGIC_SWAP
   \<and> (0x5A01 :: 16 word) AND 0xFF00 \<noteq> 0xA500
   \<and> wh_Translate32 0x5A01 0xDEADBEEF = 0xEF00ADFE
   \<and> byteReverse (0xDEADBEEF :: 32 word) = 0xEFBEADDE"
proof (intro conjI)
  show "(0x5A01 :: 16 word) \<noteq> ucast WH_COMM_MAGIC_NATIVE"
    by (simp add: MAGIC_NATIVE_16)
  show "(0x5A01 :: 16 word) \<noteq> ucast WH_COMM_MAGIC_SWAP"
    by (simp add: MAGIC_SWAP_16)
  show "(0x5A01 :: 16 word) AND 0xFF00 \<noteq> 0xA500"
    by simp
  show "wh_Translate32 0x5A01 0xDEADBEEF = 0xEF00ADFE"
    by (simp add: wh_Translate32_def SWAPTEST_iff)
  show "byteReverse (0xDEADBEEF :: 32 word) = 0xEFBEADDE"
    by (simp add: byteReverse_def bytes_of_def byte_at_def upt_rec)
qed

text \<open>
  C5.  The translation depends on the magic only through its high byte: two magics
  that agree under the mask \<open>0xFF00\<close> give the same result at every width.
\<close>

theorem wh_Translate_high_byte_only:
  assumes "m1 AND 0xFF00 = m2 AND 0xFF00"
  shows "wh_Translate8 m1 v8 = wh_Translate8 m2 v8
         \<and> wh_Translate16 m1 v16 = wh_Translate16 m2 v16
         \<and> wh_Translate32 m1 v32 = wh_Translate32 m2 v32
         \<and> wh_Translate64 m1 v64 = wh_Translate64 m2 v64"
  using assms
  by (simp add: wh_Translate16_def wh_Translate32_def wh_Translate64_def wh_Translate8_def
      SWAPTEST_ucast_iff)

theorem wh_Translate_high_byte_only_witness:
  "(0x01A5 :: 16 word) AND 0xFF00 = 0x0177 AND 0xFF00
   \<and> wh_Translate8 0x01A5 0x7F = wh_Translate8 0x0177 0x7F
   \<and> wh_Translate16 0x01A5 0x1122 = wh_Translate16 0x0177 0x1122
   \<and> wh_Translate32 0x01A5 0x11223344 = wh_Translate32 0x0177 0x11223344
   \<and> wh_Translate64 0x01A5 0x1122334455667788 = wh_Translate64 0x0177 0x1122334455667788"
proof -
  have h: "(0x01A5 :: 16 word) AND 0xFF00 = 0x0177 AND 0xFF00"
    by simp
  from wh_Translate_high_byte_only [OF h, of "0x7F" "0x1122" "0x11223344" "0x1122334455667788"] h
  show ?thesis
    by blast
qed

text \<open>
  C6.  With the endian marker \<open>0xA5\<close> and the version \<open>0x01\<close>, the native and the
  swapped magic differ, the native magic passes the swap test and the swapped magic
  fails it: their high bytes under the endian mask differ.
\<close>

theorem magic_constants_distinct:
  "WH_COMM_ENDIAN = 0xA5 \<and> WH_COMM_VERSION = 0x01
   \<and> WH_COMM_MAGIC_NATIVE \<noteq> WH_COMM_MAGIC_SWAP
   \<and> WH_COMM_FLAGS_SWAPTEST WH_COMM_MAGIC_NATIVE
   \<and> \<not> WH_COMM_FLAGS_SWAPTEST WH_COMM_MAGIC_SWAP
   \<and> WH_COMM_MAGIC_NATIVE AND WH_COMM_MAGIC_ENDIAN_MASK
       \<noteq> WH_COMM_MAGIC_SWAP AND WH_COMM_MAGIC_ENDIAN_MASK"
  by (simp add: magic_defs)

text \<open>
  C7.  The header length is 8, the payload capacity 1280 and the MTU their sum, 1288;
  \<open>whHeader\<close> has exactly the four 16-bit members magic, type, seq and aux, which
  together take the 8 bytes of the header length.
\<close>

theorem packet_size_constants:
  "WOLFHSM_COMM_HEADER_LEN = 8
   \<and> WOLFHSM_COMM_DATA_LEN = 1280
   \<and> WOLFHSM_COMM_MTU = WOLFHSM_COMM_HEADER_LEN + WOLFHSM_COMM_DATA_LEN
   \<and> WOLFHSM_COMM_MTU = 1288
   \<and> map fst whHeader_members = [''magic'', ''type'', ''seq'', ''aux'']
   \<and> map snd whHeader_members = [16, 16, 16, 16]
   \<and> sizeof_whHeader = WOLFHSM_COMM_HEADER_LEN"
  by (simp add: WOLFHSM_COMM_HEADER_LEN_def WOLFHSM_COMM_DATA_LEN_def WOLFHSM_COMM_MTU_def
      whHeader_members_def sizeof_whHeader_def)

text \<open>
  C8.  In any run of \<open>wh_CommClient_SendRequest\<close> calls on a session whose counter
  starts at \<open>s0\<close>, the k-th successful call returns \<open>(s0 + k) mod 2^16\<close>, and after the
  run the counter is \<open>s0\<close> plus the number of successful calls: failed calls, wherever
  they fall in the run, do not move it.
\<close>

theorem wh_CommClient_SendRequest_sequence:
  assumes "send_requests ctx calls = (rs, ctx')"
  shows "(\<forall>k < length (successes rs).
            unat (successes rs ! k) = (unat (c_seq ctx) + Suc k) mod 2 ^ 16)
         \<and> unat (c_seq ctx') = (unat (c_seq ctx) + length (successes rs)) mod 2 ^ 16"
proof (intro conjI allI impI)
  fix k
  assume "k < length (successes rs)"
  with send_requests_seq [OF assms]
  have "successes rs ! k = c_seq ctx + word_of_nat (Suc k)"
    by blast
  then show "unat (successes rs ! k) = (unat (c_seq ctx) + Suc k) mod 2 ^ 16"
    by (simp only: unat_seq_add)
next
  from send_requests_seq [OF assms]
  have "c_seq ctx' = c_seq ctx + word_of_nat (length (successes rs))"
    by blast
  then show "unat (c_seq ctx') = (unat (c_seq ctx) + length (successes rs)) mod 2 ^ 16"
    by (simp only: unat_seq_add)
qed

theorem wh_CommClient_SendRequest_sequence_witness:
  "\<exists>rs ctx'. send_requests example_client example_calls = (rs, ctx')
      \<and> rs = [Inr 0xFFFF, Inl (TransportStatus 5), Inl SizeError, Inr 0, Inr 1]
      \<and> unat (c_seq example_client) = 65534
      \<and> unat (successes rs ! 2) = 1
      \<and> unat (c_seq ctx') = 1"
proof -
  obtain rs ctx' where run: "send_requests example_client example_calls = (rs, ctx')"
    by (cases "send_requests example_client example_calls")
  with example_run
  have rs: "rs = [Inr 0xFFFF, Inl (TransportStatus 5), Inl SizeError, Inr 0, Inr 1]"
    by simp
  then have n: "length (successes rs) = 3"
    by simp
  have s0: "unat (c_seq example_client) = 65534"
    by (simp add: example_client_def)
  from wh_CommClient_SendRequest_sequence [OF run] have
    "\<forall>k < length (successes rs).
       unat (successes rs ! k) = (unat (c_seq example_client) + Suc k) mod 2 ^ 16"
    and "unat (c_seq ctx') = (unat (c_seq example_client) + length (successes rs)) mod 2 ^ 16"
    by blast+
  with n s0 have "unat (successes rs ! 2) = 1" and "unat (c_seq ctx') = 1"
    by simp_all
  with run rs s0 show ?thesis
    by blast
qed

text \<open>
  C9.  When \<open>wh_CommServer_RecvRequest\<close> has returned a request with decoded sequence
  \<open>S\<close>, a following \<open>wh_CommServer_SendResponse\<close> with the default (cached) sequence
  sends a packet whose \<open>seq\<close> header field is \<open>S\<close>.
\<close>

theorem wh_CommServer_echo_sequence:
  assumes "wh_CommServer_RecvRequest Recv ctx capacity = (Inr (m, t, S, n, d), ctx')"
    and "SendResponse_default Send ctx' magic_arg type_arg aux_arg data_arg = (Inr pkt, ctx'')"
  shows "seq (hdr pkt) = S"
  using RecvRequest_caches [OF assms(1)]
    SendResponse_packet [OF assms(2) [unfolded SendResponse_default_def]]
  by simp

theorem wh_CommServer_echo_sequence_witness:
  "\<exists>ctx' pkt ctx''.
     wh_CommServer_RecvRequest (0, example_request) example_server 16 =
       (Inr (0x01A5, 1, 7, 2, [1, 2]), ctx')
     \<and> SendResponse_default (\<lambda>_. 0) ctx' 0xA501 2 0 [0xAA] = (Inr pkt, ctx'')
     \<and> seq (hdr pkt) = 7"
proof -
  let ?ctx' = "example_server\<lparr>s_packet := example_request, s_reqid := 7\<rparr>"
  obtain r ctx'' where send:
    "SendResponse_default (\<lambda>_. 0) ?ctx' 0xA501 2 0 [0xAA] = (r, ctx'')"
    by (cases "SendResponse_default (\<lambda>_. 0) ?ctx' 0xA501 2 0 [0xAA]")
  from SendResponse_default_succeeds [OF example_recv, of "[0xAA]" "\<lambda>_. 0" "0xA501" 2 0] send
  obtain pkt where r: "r = Inr pkt"
    by (auto simp add: WOLFHSM_COMM_DATA_LEN_def)
  from wh_CommServer_echo_sequence [OF example_recv send [unfolded r]]
  have "seq (hdr pkt) = 7" .
  with example_recv send r show ?thesis
    by blast
qed

text \<open>
  C10.  \<open>wh_Translate16\<close> and \<open>wh_Translate64\<close> are involutions in their value
  argument, for every magic.
\<close>

theorem wh_Translate16_64_involution:
  "wh_Translate16 m (wh_Translate16 m v) = v
   \<and> wh_Translate64 m (wh_Translate64 m w) = w"
  by (simp add: wh_Translate16_cases wh_Translate64_cases byteReverse_involution)

end
